theory Spec2Isabelle
  imports Complex_Main
begin

section \<open>Zonal statistics: the values the script computes with\<close>

text \<open>
  The embedding follows \<^verbatim>\<open>src/zonal_stats.py\<close>. Pixel values are numpy numbers: a finite
  number or one of the three IEEE special values. Finite values are modelled as reals, so
  rounding and overflow of the machine arithmetic are outside the model; the behaviour of
  \<^verbatim>\<open>nan\<close> and \<^verbatim>\<open>inf\<close> under comparison and arithmetic is written out.
\<close>

datatype fval = Fin real | PInf | NInf | NaN

text \<open>IEEE comparison: every comparison with \<^verbatim>\<open>nan\<close> is false.\<close>

fun feq :: "fval \<Rightarrow> fval \<Rightarrow> bool" where
  "feq NaN _ = False"
| "feq _ NaN = False"
| "feq (Fin a) (Fin b) = (a = b)"
| "feq PInf PInf = True"
| "feq NInf NInf = True"
| "feq _ _ = False"

definition fne :: "fval \<Rightarrow> fval \<Rightarrow> bool" where
  "fne a b = (\<not> feq a b)"

fun fle :: "fval \<Rightarrow> fval \<Rightarrow> bool" where
  "fle NaN _ = False"
| "fle _ NaN = False"
| "fle NInf _ = True"
| "fle _ PInf = True"
| "fle (Fin a) (Fin b) = (a \<le> b)"
| "fle _ _ = False"

fun isfinite :: "fval \<Rightarrow> bool" where
  "isfinite (Fin _) = True"
| "isfinite _ = False"

fun fadd :: "fval \<Rightarrow> fval \<Rightarrow> fval" where
  "fadd NaN _ = NaN"
| "fadd _ NaN = NaN"
| "fadd (Fin a) (Fin b) = Fin (a + b)"
| "fadd PInf NInf = NaN"
| "fadd NInf PInf = NaN"
| "fadd PInf _ = PInf"
| "fadd _ PInf = PInf"
| "fadd NInf _ = NInf"
| "fadd _ NInf = NInf"

fun fneg :: "fval \<Rightarrow> fval" where
  "fneg (Fin a) = Fin (- a)"
| "fneg PInf = NInf"
| "fneg NInf = PInf"
| "fneg NaN = NaN"

definition fsub :: "fval \<Rightarrow> fval \<Rightarrow> fval" where
  "fsub a b = fadd a (fneg b)"

fun fabs :: "fval \<Rightarrow> fval" where
  "fabs (Fin a) = Fin \<bar>a\<bar>"
| "fabs PInf = PInf"
| "fabs NInf = PInf"
| "fabs NaN = NaN"

text \<open>\<^verbatim>\<open>x ** 2\<close>\<close>

fun fsq :: "fval \<Rightarrow> fval" where
  "fsq (Fin a) = Fin (a * a)"
| "fsq PInf = PInf"
| "fsq NInf = PInf"
| "fsq NaN = NaN"

text \<open>Division by a positive element count.\<close>

fun fdivn :: "fval \<Rightarrow> nat \<Rightarrow> fval" where
  "fdivn (Fin a) n = Fin (a / real n)"
| "fdivn v n = v"

fun fsqrt :: "fval \<Rightarrow> fval" where
  "fsqrt (Fin a) = (if 0 \<le> a then Fin (sqrt a) else NaN)"
| "fsqrt PInf = PInf"
| "fsqrt NInf = NaN"
| "fsqrt NaN = NaN"

text \<open>
  \<^verbatim>\<open>np.minimum\<close> and \<^verbatim>\<open>np.maximum\<close> propagate \<^verbatim>\<open>nan\<close>; \<^verbatim>\<open>np.min\<close> and
  \<^verbatim>\<open>np.max\<close> reduce with them and raise \<^verbatim>\<open>ValueError\<close> on an empty array.
\<close>

datatype error = ValueError | IndexError | TypeError | KeyError

definition fmin2 :: "fval \<Rightarrow> fval \<Rightarrow> fval" where
  "fmin2 a b = (if a = NaN \<or> b = NaN then NaN else if fle a b then a else b)"

definition fmax2 :: "fval \<Rightarrow> fval \<Rightarrow> fval" where
  "fmax2 a b = (if a = NaN \<or> b = NaN then NaN else if fle a b then b else a)"

fun np_min :: "fval list \<Rightarrow> error + fval" where
  "np_min [] = Inl ValueError"
| "np_min (x # xs) = Inr (foldl fmin2 x xs)"

fun np_max :: "fval list \<Rightarrow> error + fval" where
  "np_max [] = Inl ValueError"
| "np_max (x # xs) = Inr (foldl fmax2 x xs)"

definition np_sum :: "fval list \<Rightarrow> fval" where
  "np_sum xs = foldl fadd (Fin 0) xs"

text \<open>
  \<^verbatim>\<open>np.mean\<close>: the sum divided by the number of elements. The model adds and divides
  finite values exactly where the library rounds, so it fixes which pixels enter the mean
  and how \<^verbatim>\<open>nan\<close> and the infinities pass through, not the last digits of the result.
\<close>

definition np_mean :: "fval list \<Rightarrow> fval" where
  "np_mean xs = fdivn (np_sum xs) (length xs)"

text \<open>
  \<^verbatim>\<open>np.std\<close> with its default \<^verbatim>\<open>ddof=0\<close>:
  \<^verbatim>\<open>sqrt(mean(abs(x - x.mean())**2))\<close>, the divisor being the number of elements.
\<close>

definition np_std :: "fval list \<Rightarrow> fval" where
  "np_std xs = (let m = np_mean xs in fsqrt (np_mean (map (\<lambda>x. fsq (fabs (fsub x m))) xs)))"

subsection \<open>Python values and dictionaries\<close>

datatype pyval =
    PNone
  | PInt int
  | PFloat fval
  | PStr string
  | PList "pyval list"
  | PDict "(string \<times> pyval) list"

text \<open>
  A dictionary is an association list in insertion order with distinct keys. Assigning to
  a key that is present replaces its value in place; a new key goes to the end.
\<close>

type_synonym pydict = "(string \<times> pyval) list"

fun dict_set :: "pydict \<Rightarrow> string \<Rightarrow> pyval \<Rightarrow> pydict" where
  "dict_set [] k v = [(k, v)]"
| "dict_set ((k', v') # d) k v = (if k' = k then (k, v) # d else (k', v') # dict_set d k v)"

text \<open>\<^verbatim>\<open>d.update(e)\<close>, also the unpacking \<^verbatim>\<open>{..., **e}\<close>.\<close>

definition dict_update :: "pydict \<Rightarrow> pydict \<Rightarrow> pydict" where
  "dict_update d e = foldl (\<lambda>acc (k, v). dict_set acc k v) d e"

definition dict_get :: "pydict \<Rightarrow> string \<Rightarrow> pyval option" where
  "dict_get d k = map_of d k"

subsection \<open>Decimal text of a number\<close>

definition digit_char :: "nat \<Rightarrow> char" where
  "digit_char n = ''0123456789'' ! (n mod 10)"

function str_nat :: "nat \<Rightarrow> string" where
  "str_nat n = (if n < 10 then [digit_char n] else str_nat (n div 10) @ [digit_char n])"
  by pat_completeness auto
termination
  by (relation "measure id") auto

declare str_nat.simps [simp del]


section \<open>Per-raster statistics\<close>

text \<open>
  An opened dataset: its nodata value (\<^verbatim>\<open>src.nodata\<close>, \<^verbatim>\<open>None\<close> when the file
  declares none), its band count, and the result of the library call
  \<^verbatim>\<open>mask(src, [geom], crop=True)\<close> for a geometry: either the exception it raises (its
  message) or \<^verbatim>\<open>out_image\<close>, one flattened pixel array per band.
\<close>

record 'g raster =
  nodata :: "fval option"
  count :: nat
  mask_crop :: "'g \<Rightarrow> string + fval list list"

text \<open>\<^verbatim>\<open>src.indexes\<close> is \<^verbatim>\<open>1, ..., count\<close>.\<close>

definition indexes :: "'g raster \<Rightarrow> nat list" where
  "indexes src = [1 ..< Suc (count src)]"

text \<open>
  \<^verbatim>\<open>band_names[i] if band_names and i < len(band_names) else f"band_{band}"\<close>:
  \<^verbatim>\<open>None\<close> and the empty list are both false.
\<close>

definition band_label :: "string list option \<Rightarrow> nat \<Rightarrow> nat \<Rightarrow> string" where
  "band_label band_names i band =
     (case band_names of
        None \<Rightarrow> ''band_'' @ str_nat band
      | Some ns \<Rightarrow> if ns \<noteq> [] \<and> i < length ns then ns ! i else ''band_'' @ str_nat band)"

definition valid_mask :: "fval option \<Rightarrow> fval list \<Rightarrow> bool list" where
  "valid_mask nd data =
     (case nd of
        Some s \<Rightarrow> map (\<lambda>x. fne x s) data
      | None \<Rightarrow> map isfinite data)"

definition count_nonzero :: "bool list \<Rightarrow> nat" where
  "count_nonzero m = length (filter (\<lambda>b. b) m)"

text \<open>Boolean indexing \<^verbatim>\<open>data[valid_mask]\<close>.\<close>

definition select :: "fval list \<Rightarrow> bool list \<Rightarrow> fval list" where
  "select data m = map fst (filter snd (zip data m))"

definition stats_record ::
  "string \<Rightarrow> pyval \<Rightarrow> pyval \<Rightarrow> pyval \<Rightarrow> pyval \<Rightarrow> int \<Rightarrow> int \<Rightarrow> int \<Rightarrow> pydict" where
  "stats_record bn mn mx mean sd n_total n_valid n_invalid =
     [(bn @ ''_min'', mn), (bn @ ''_max'', mx), (bn @ ''_mean'', mean), (bn @ ''_std'', sd),
      (bn @ ''_count'', PInt n_total), (bn @ ''_valid'', PInt n_valid),
      (bn @ ''_invalid'', PInt n_invalid)]"

text \<open>The record appended when \<^verbatim>\<open>mask\<close> raised.\<close>

definition failed_record :: "string \<Rightarrow> pydict" where
  "failed_record bn = stats_record bn PNone PNone PNone PNone 0 0 0"

text \<open>Lines 71 to 102: from the band's pixel array to its record.\<close>

definition pixel_stats :: "fval option \<Rightarrow> string \<Rightarrow> fval list \<Rightarrow> error + pydict" where
  "pixel_stats nd bn data =
     (let total_pixels = int (length data);
          vm = valid_mask nd data;
          valid_pixels = int (count_nonzero vm);
          invalid_pixels = total_pixels - valid_pixels;
          valid_data = select data vm
      in if valid_pixels = 0
         then Inr (stats_record bn PNone PNone PNone PNone total_pixels 0 invalid_pixels)
         else (case np_min valid_data of
                 Inl e \<Rightarrow> Inl e
               | Inr mn \<Rightarrow>
                   (case np_max valid_data of
                      Inl e \<Rightarrow> Inl e
                    | Inr mx \<Rightarrow>
                        Inr (stats_record bn (PFloat mn) (PFloat mx)
                               (PFloat (np_mean valid_data)) (PFloat (np_std valid_data))
                               total_pixels valid_pixels invalid_pixels))))"

text \<open>
  The log holds the records the configured level (\<^verbatim>\<open>INFO\<close>) lets through; the
  \<^verbatim>\<open>logging.debug\<close> calls emit nothing.
\<close>

datatype level = INFO | WARNING

type_synonym log = "(level \<times> string) list"

text \<open>
  One pass of the loop over geometries (lines 56 to 102). The exception of \<^verbatim>\<open>mask\<close> is
  caught; \<^verbatim>\<open>out_image[band - 1]\<close> is outside the \<^verbatim>\<open>try\<close>. Bands come from
  \<^verbatim>\<open>src.indexes\<close>, so \<^verbatim>\<open>band\<close> is at least 1.
\<close>

definition mask_geometry ::
  "'g raster \<Rightarrow> nat \<Rightarrow> string \<Rightarrow> nat \<Rightarrow> 'g \<Rightarrow> log \<times> (error + pydict)" where
  "mask_geometry src band bn geom_idx geom =
     (case mask_crop src geom of
        Inl e \<Rightarrow>
          ([(WARNING, ''Failed to mask geometry '' @ str_nat geom_idx @ '': '' @ e)],
           Inr (failed_record bn))
      | Inr out_image \<Rightarrow>
          if band - 1 < length out_image
          then ([], pixel_stats (nodata src) bn (out_image ! (band - 1)))
          else ([], Inl IndexError))"

fun geom_loop ::
  "'g raster \<Rightarrow> nat \<Rightarrow> string \<Rightarrow> nat \<Rightarrow> 'g list \<Rightarrow> log \<Rightarrow> pydict list
     \<Rightarrow> log \<times> (error + pydict list)" where
  "geom_loop src band bn geom_idx [] lg band_stats = (lg, Inr band_stats)"
| "geom_loop src band bn geom_idx (geom # gs) lg band_stats =
     (case mask_geometry src band bn geom_idx geom of
        (l, Inl e) \<Rightarrow> (lg @ l, Inl e)
      | (l, Inr r) \<Rightarrow> geom_loop src band bn (Suc geom_idx) gs (lg @ l) (band_stats @ [r]))"

fun band_loop ::
  "'g raster \<Rightarrow> string list option \<Rightarrow> 'g list \<Rightarrow> (nat \<times> nat) list \<Rightarrow> log
     \<Rightarrow> pydict list list \<Rightarrow> log \<times> (error + pydict list list)" where
  "band_loop src band_names shapes [] lg stats_list = (lg, Inr stats_list)"
| "band_loop src band_names shapes ((i, band) # rest) lg stats_list =
     (let bn = band_label band_names i band;
          lg1 = lg @ [(INFO, ''Processing '' @ bn @ '' ...'')]
      in case geom_loop src band bn 0 shapes lg1 [] of
           (lg2, Inl e) \<Rightarrow> (lg2, Inl e)
         | (lg2, Inr band_stats) \<Rightarrow>
             band_loop src band_names shapes rest lg2 (stats_list @ [band_stats]))"

text \<open>Lines 110 to 115: one dictionary per geometry, the bands' records merged in order.\<close>

definition merge_stats :: "nat \<Rightarrow> pydict list list \<Rightarrow> pydict list" where
  "merge_stats n stats_list =
     map (\<lambda>i. foldl (\<lambda>geom_stats band_stats. dict_update geom_stats (band_stats ! i))
                 [] stats_list) [0 ..< n]"

definition compute_statistics ::
  "string \<Rightarrow> 'g raster \<Rightarrow> 'g list \<Rightarrow> string list option \<Rightarrow> log \<times> (error + pydict list)" where
  "compute_statistics raster_path src shapes band_names =
     (case band_loop src band_names shapes (enumerate 0 (indexes src))
             [(INFO, ''Opening raster: '' @ raster_path)] [] of
        (lg, Inl e) \<Rightarrow> (lg, Inl e)
      | (lg, Inr stats_list) \<Rightarrow> (lg, Inr (merge_stats (length shapes) stats_list)))"


section \<open>The date key of a raster\<close>

text \<open>
  Strings are lists of bytes, so \<^verbatim>\<open>\d\<close> is an ASCII digit here. The pattern
  \<^verbatim>\<open>(\d{4}[-_]?\d{2}[-_]?\d{2})\<close> has no alternative to go back to: once an optional
  separator is skipped, giving it back leaves the next \<^verbatim>\<open>\d{2}\<close> facing that separator.
\<close>

definition is_digit :: "char \<Rightarrow> bool" where
  "is_digit c = (c \<in> set ''0123456789'')"

definition is_sep :: "char \<Rightarrow> bool" where
  "is_sep c = (c = CHR ''-'' \<or> c = CHR ''_'')"

text \<open>\<^verbatim>\<open>\d{n}\<close> at the start of a string: the digits and the rest.\<close>

definition take_digits :: "nat \<Rightarrow> string \<Rightarrow> (string \<times> string) option" where
  "take_digits n s =
     (if n \<le> length s \<and> list_all is_digit (take n s) then Some (take n s, drop n s) else None)"

text \<open>\<^verbatim>\<open>[-_]?\<close> at the start of a string.\<close>

fun opt_sep :: "string \<Rightarrow> string \<times> string" where
  "opt_sep [] = ([], [])"
| "opt_sep (c # s) = (if is_sep c then ([c], s) else ([], c # s))"

text \<open>The pattern at the start of a string: \<^verbatim>\<open>group(1)\<close> when it matches.\<close>

definition match_at :: "string \<Rightarrow> string option" where
  "match_at s =
     (case take_digits 4 s of
        None \<Rightarrow> None
      | Some (y, r1) \<Rightarrow>
          (case opt_sep r1 of
             (s1, r2) \<Rightarrow>
               (case take_digits 2 r2 of
                  None \<Rightarrow> None
                | Some (m, r3) \<Rightarrow>
                    (case opt_sep r3 of
                       (s2, r4) \<Rightarrow>
                         (case take_digits 2 r4 of
                            None \<Rightarrow> None
                          | Some (d, r5) \<Rightarrow> Some (y @ s1 @ m @ s2 @ d))))))"

text \<open>\<^verbatim>\<open>re.search\<close>: the leftmost position where the pattern matches.\<close>

fun re_search :: "string \<Rightarrow> string option" where
  "re_search [] = match_at []"
| "re_search (c # s) = (case match_at (c # s) of Some g \<Rightarrow> Some g | None \<Rightarrow> re_search s)"

text \<open>\<^verbatim>\<open>re.sub(r'[-_]', '', ...)\<close>\<close>

definition strip_seps :: "string \<Rightarrow> string" where
  "strip_seps s = filter (\<lambda>c. \<not> is_sep c) s"

definition digit_val :: "char \<Rightarrow> nat" where
  "digit_val c = of_char c - 48"

definition digits_val :: "string \<Rightarrow> nat" where
  "digits_val s = foldl (\<lambda>a c. 10 * a + digit_val c) 0 s"

record date =
  year :: nat
  month :: nat
  day :: nat

definition is_leap :: "nat \<Rightarrow> bool" where
  "is_leap y = (y mod 4 = 0 \<and> (y mod 100 \<noteq> 0 \<or> y mod 400 = 0))"

definition days_in_month :: "nat \<Rightarrow> nat \<Rightarrow> nat" where
  "days_in_month y m =
     (if m = 2 then (if is_leap y then 29 else 28)
      else if m = 4 \<or> m = 6 \<or> m = 9 \<or> m = 11 then 30 else 31)"

text \<open>
  \<^verbatim>\<open>datetime.strptime(date_str, "%Y%m%d")\<close> on eight digits: four for the year, two for
  the month, two for the day. It raises \<^verbatim>\<open>ValueError\<close> unless the month is 01 to 12, the
  day is 01 to the last day of that month, and the year is at least 1.
\<close>

definition strptime_ymd :: "string \<Rightarrow> error + date" where
  "strptime_ymd s =
     (let y = digits_val (take 4 s);
          m = digits_val (take 2 (drop 4 s));
          d = digits_val (take 2 (drop 6 s))
      in if 1 \<le> y \<and> 1 \<le> m \<and> m \<le> 12 \<and> 1 \<le> d \<and> d \<le> days_in_month y m
         then Inr \<lparr>year = y, month = m, day = d\<rparr>
         else Inl ValueError)"

definition extract_date_from_filename :: "string \<Rightarrow> error + date option" where
  "extract_date_from_filename filename =
     (case re_search filename of
        Some g \<Rightarrow> (case strptime_ymd (strip_seps g) of Inl e \<Rightarrow> Inl e | Inr d \<Rightarrow> Inr (Some d))
      | None \<Rightarrow> Inr None)"

definition zero_pad :: "nat \<Rightarrow> nat \<Rightarrow> string" where
  "zero_pad w n = replicate (w - length (str_nat n)) (CHR ''0'') @ str_nat n"

text \<open>
  \<^verbatim>\<open>date.strftime("%Y-%m-%d")\<close>. The month and the day are printed in two digits. The
  year is printed by the C library of the platform, which does not pad it: a year below
  1000 comes out with fewer than four digits (\<^verbatim>\<open>12-03-04\<close> for the year 12).
\<close>

definition strftime_ymd :: "date \<Rightarrow> string" where
  "strftime_ymd d = str_nat (year d) @ ''-'' @ zero_pad 2 (month d) @ ''-'' @ zero_pad 2 (day d)"

text \<open>\<^verbatim>\<open>os.path.basename\<close>: what follows the last slash.\<close>

definition basename :: "string \<Rightarrow> string" where
  "basename p = rev (takeWhile (\<lambda>c. c \<noteq> CHR ''/'') (rev p))"

text \<open>Lines 165 and 166 of \<^verbatim>\<open>main\<close>.\<close>

definition date_key_of :: "string \<Rightarrow> error + string" where
  "date_key_of tiff =
     (case extract_date_from_filename (basename tiff) of
        Inl e \<Rightarrow> Inl e
      | Inr (Some d) \<Rightarrow> Inr (strftime_ymd d)
      | Inr None \<Rightarrow> Inr (basename tiff))"

section \<open>The time series of a feature\<close>

text \<open>
  \<^verbatim>\<open>[{"date": k, **v} for k, v in value.items()]\<close>: unpacking a value that is not a
  mapping raises \<^verbatim>\<open>TypeError\<close>.
\<close>

fun ts_entries :: "pydict \<Rightarrow> error + pyval list" where
  "ts_entries [] = Inr []"
| "ts_entries ((k, v) # rest) =
     (case v of
        PDict flds \<Rightarrow>
          (case ts_entries rest of
             Inl e \<Rightarrow> Inl e
           | Inr es \<Rightarrow> Inr (PDict (dict_update [(''date'', PStr k)] flds) # es))
      | _ \<Rightarrow> Inl TypeError)"

definition convert_ts :: "pyval \<Rightarrow> error + pyval list" where
  "convert_ts v =
     (case v of
        PDict kvs \<Rightarrow> ts_entries kvs
      | PList xs \<Rightarrow> Inr xs
      | _ \<Rightarrow> Inr [])"

text \<open>
  Lines 171 to 178: each feature's list gets one entry. The lists of different features
  are different objects (fresh ones from line 151, or one per row of the column), so the
  column is a list of lists.
\<close>

fun append_entries ::
  "string \<Rightarrow> (nat \<times> pydict) list \<Rightarrow> pyval list list \<Rightarrow> error + pyval list list" where
  "append_entries date_key [] ts = Inr ts"
| "append_entries date_key ((i, stat) # rest) ts =
     (if i < length ts
      then append_entries date_key rest
             (ts[i := ts ! i @ [PDict (dict_update [(''date'', PStr date_key)] stat)]])
      else Inl KeyError)"

text \<open>
  Lines 163 to 178, the loop over the rasters. \<^verbatim>\<open>rasterio.open\<close> is a parameter: a path
  gives a dataset or the error of opening it.
\<close>

fun tiff_loop ::
  "(string \<Rightarrow> error + 'g raster) \<Rightarrow> 'g list \<Rightarrow> string list option \<Rightarrow> string list
     \<Rightarrow> pyval list list \<Rightarrow> error + pyval list list" where
  "tiff_loop opn gdf band_names [] ts = Inr ts"
| "tiff_loop opn gdf band_names (tiff # rest) ts =
     (case date_key_of tiff of
        Inl e \<Rightarrow> Inl e
      | Inr date_key \<Rightarrow>
          (case opn tiff of
             Inl e \<Rightarrow> Inl e
           | Inr src \<Rightarrow>
               (case snd (compute_statistics tiff src gdf band_names) of
                  Inl e \<Rightarrow> Inl e
                | Inr stats \<Rightarrow>
                    (case append_entries date_key (enumerate 0 stats) ts of
                       Inl e \<Rightarrow> Inl e
                     | Inr ts' \<Rightarrow> tiff_loop opn gdf band_names rest ts'))))"

text \<open>
  Lines 149 to 161 of \<^verbatim>\<open>main\<close>: without a \<^verbatim>\<open>timeseries\<close> column every feature gets a
  fresh empty list; otherwise \<^verbatim>\<open>convert_ts\<close> is applied to every value of the column.
  \<open>multi_raster\<close> is the branch of \<^verbatim>\<open>main\<close> for more than one raster, up to the export.
\<close>

fun apply_convert :: "pyval list \<Rightarrow> error + pyval list list" where
  "apply_convert [] = Inr []"
| "apply_convert (v # vs) =
     (case convert_ts v of
        Inl e \<Rightarrow> Inl e
      | Inr xs \<Rightarrow> (case apply_convert vs of Inl e \<Rightarrow> Inl e | Inr rest \<Rightarrow> Inr (xs # rest)))"

definition init_timeseries :: "nat \<Rightarrow> pyval list option \<Rightarrow> error + pyval list list" where
  "init_timeseries n col =
     (case col of None \<Rightarrow> Inr (replicate n []) | Some vs \<Rightarrow> apply_convert vs)"

definition multi_raster ::
  "(string \<Rightarrow> error + 'g raster) \<Rightarrow> 'g list \<Rightarrow> pyval list option \<Rightarrow> string list option
     \<Rightarrow> string list \<Rightarrow> error + pyval list list" where
  "multi_raster opn gdf col band_names tiffs =
     (case init_timeseries (length gdf) col of
        Inl e \<Rightarrow> Inl e
      | Inr ts \<Rightarrow> tiff_loop opn gdf band_names tiffs ts)"

section \<open>The library's extraction\<close>

text \<open>
  The library call of line 57. \<^verbatim>\<open>rasterio.mask.mask(src, [geom], crop=True)\<close> runs with
  its defaults \<^verbatim>\<open>filled=True\<close> and \<^verbatim>\<open>nodata=None\<close>: it reads the window that encloses
  the shapes and, as documented, sets the pixels outside the shapes to the nodata value of
  the dataset, or to 0 when the dataset has none. The array it returns has the shape of
  the window. A window is given per band as its pixels, each with the value read and
  whether the shapes cover it; \<open>dataset\<close> is the raster whose extraction works this way.
\<close>

type_synonym window = "(fval \<times> bool) list list"

definition fill_value :: "fval option \<Rightarrow> fval" where
  "fill_value nd = (case nd of Some s \<Rightarrow> s | None \<Rightarrow> Fin 0)"

definition rasterio_mask :: "fval option \<Rightarrow> window \<Rightarrow> fval list list" where
  "rasterio_mask nd w = map (map (\<lambda>(v, inside). if inside then v else fill_value nd)) w"

definition dataset :: "fval option \<Rightarrow> nat \<Rightarrow> ('g \<Rightarrow> string + window) \<Rightarrow> 'g raster" where
  "dataset nd n win =
     \<lparr>nodata = nd, count = n,
      mask_crop = (\<lambda>g. case win g of Inl e \<Rightarrow> Inl e | Inr w \<Rightarrow> Inr (rasterio_mask nd w))\<rparr>"


section \<open>Notions used to state the properties\<close>

text \<open>The validity rule of lines 74 to 77 for one pixel.\<close>

definition pixel_valid :: "fval option \<Rightarrow> fval \<Rightarrow> bool" where
  "pixel_valid nd x = (case nd of Some s \<Rightarrow> fne x s | None \<Rightarrow> isfinite x)"

text \<open>The three counters of band \<open>bn\<close> in a record are integers with count = valid + invalid.\<close>

definition count_invariant :: "string \<Rightarrow> pydict \<Rightarrow> bool" where
  "count_invariant bn r =
     (case (dict_get r (bn @ ''_count''), dict_get r (bn @ ''_valid''),
            dict_get r (bn @ ''_invalid'')) of
        (Some (PInt c), Some (PInt v), Some (PInt i)) \<Rightarrow> c = v + i
      | _ \<Rightarrow> False)"

text \<open>
  What the library promises about \<^verbatim>\<open>out_image\<close>: it has all the bands of the dataset.
\<close>

definition bands_ok :: "'g raster \<Rightarrow> 'g \<Rightarrow> bool" where
  "bands_ok src g =
     (case mask_crop src g of Inl e \<Rightarrow> True | Inr out_image \<Rightarrow> count src \<le> length out_image)"

text \<open>The record of one band for one geometry, and what the pass logs.\<close>

definition band_record :: "'g raster \<Rightarrow> nat \<Rightarrow> string \<Rightarrow> 'g \<Rightarrow> pydict" where
  "band_record src band bn g =
     (case mask_crop src g of
        Inl e \<Rightarrow> failed_record bn
      | Inr out_image \<Rightarrow>
          (case pixel_stats (nodata src) bn (out_image ! (band - 1)) of
             Inr r \<Rightarrow> r
           | Inl e \<Rightarrow> []))"

definition geom_log :: "'g raster \<Rightarrow> nat \<Rightarrow> 'g \<Rightarrow> log" where
  "geom_log src geom_idx g =
     (case mask_crop src g of
        Inl e \<Rightarrow> [(WARNING, ''Failed to mask geometry '' @ str_nat geom_idx @ '': '' @ e)]
      | Inr out_image \<Rightarrow> [])"

definition band_log :: "'g raster \<Rightarrow> string list option \<Rightarrow> 'g list \<Rightarrow> nat \<times> nat \<Rightarrow> log" where
  "band_log src band_names shapes ib =
     (INFO, ''Processing '' @ band_label band_names (fst ib) (snd ib) @ '' ...'')
       # concat (map (\<lambda>(k, g). geom_log src k g) (enumerate 0 shapes))"

definition band_column ::
  "'g raster \<Rightarrow> string list option \<Rightarrow> 'g list \<Rightarrow> nat \<times> nat \<Rightarrow> pydict list" where
  "band_column src band_names shapes ib =
     map (band_record src (snd ib) (band_label band_names (fst ib) (snd ib))) shapes"

text \<open>The merged record of one geometry: the records of its bands, in band order.\<close>

definition combined_record :: "'g raster \<Rightarrow> string list option \<Rightarrow> 'g \<Rightarrow> pydict" where
  "combined_record src band_names g =
     foldl dict_update []
       (map (\<lambda>ib. band_record src (snd ib) (band_label band_names (fst ib) (snd ib)) g)
          (enumerate 0 (indexes src)))"

definition stats_log :: "string \<Rightarrow> 'g raster \<Rightarrow> 'g list \<Rightarrow> string list option \<Rightarrow> log" where
  "stats_log raster_path src shapes band_names =
     (INFO, ''Opening raster: '' @ raster_path)
       # concat (map (band_log src band_names shapes) (enumerate 0 (indexes src)))"

text \<open>The seven metric suffixes of a band's keys.\<close>

definition suffixes :: "string list" where
  "suffixes = [''_min'', ''_max'', ''_mean'', ''_std'', ''_count'', ''_valid'', ''_invalid'']"

text \<open>A one-band raster whose extraction fails for geometry 1 only.\<close>

definition demo_raster :: "nat raster" where
  "demo_raster =
     \<lparr>nodata = Some (Fin (- 9999)), count = 1,
      mask_crop = (\<lambda>g. if g = 1 then Inl ''Input shapes do not overlap raster.''
                        else Inr [[Fin 1, Fin 2, Fin (- 9999), Fin 4]])\<rparr>"

text \<open>A three-band raster.\<close>

definition demo_raster3 :: "nat raster" where
  "demo_raster3 =
     \<lparr>nodata = None, count = 3, mask_crop = (\<lambda>g. Inr [[Fin 1], [Fin 2], [Fin 3]])\<rparr>"

text \<open>
  A record is a mapping with distinct field names; \<open>ts_entry\<close> is the dictionary display
  \<^verbatim>\<open>{"date": k, **v}\<close>.
\<close>

definition is_record :: "pyval \<Rightarrow> bool" where
  "is_record v = (case v of PDict flds \<Rightarrow> distinct (map fst flds) | _ \<Rightarrow> False)"

definition record_fields :: "pyval \<Rightarrow> pydict" where
  "record_fields v = (case v of PDict flds \<Rightarrow> flds | _ \<Rightarrow> [])"

definition ts_entry :: "string \<Rightarrow> pydict \<Rightarrow> pyval" where
  "ts_entry k flds = PDict (dict_update [(''date'', PStr k)] flds)"


text \<open>
  The entry a raster contributes to a feature, and the rasters the loop gets through:
  the date key is found, the file opens, every \<^verbatim>\<open>out_image\<close> has all the bands.
\<close>

definition raster_entry ::
  "(string \<Rightarrow> error + 'g raster) \<Rightarrow> string list option \<Rightarrow> 'g \<Rightarrow> string \<Rightarrow> pyval" where
  "raster_entry opn band_names g tiff =
     (case (date_key_of tiff, opn tiff) of
        (Inr dk, Inr src) \<Rightarrow>
          PDict (dict_update [(''date'', PStr dk)] (combined_record src band_names g))
      | _ \<Rightarrow> PNone)"

definition raster_ok :: "(string \<Rightarrow> error + 'g raster) \<Rightarrow> 'g list \<Rightarrow> string \<Rightarrow> bool" where
  "raster_ok opn gdf tiff =
     (case (date_key_of tiff, opn tiff) of
        (Inr dk, Inr src) \<Rightarrow> list_all (bands_ok src) gdf
      | _ \<Rightarrow> False)"

text \<open>The values of the covered pixels of a band, and the number of the others.\<close>

definition inside_values :: "(fval \<times> bool) list \<Rightarrow> fval list" where
  "inside_values px = map fst (filter snd px)"

definition outside_count :: "(fval \<times> bool) list \<Rightarrow> nat" where
  "outside_count px = length (filter (\<lambda>p. \<not> snd p) px)"

section \<open>Properties\<close>

subsection \<open>Classification and the record of one band\<close>

lemma valid_mask_map: "valid_mask nd data = map (pixel_valid nd) data"
  by (cases nd) (simp_all add: valid_mask_def pixel_valid_def)

lemma select_map: "select data (map P data) = filter P data"
  by (induction data) (simp_all add: select_def)

lemma count_nonzero_map: "count_nonzero (map P data) = length (filter P data)"
  by (induction data) (simp_all add: count_nonzero_def)

lemma np_min_nonempty: "xs \<noteq> [] \<Longrightarrow> np_min xs = Inr (foldl fmin2 (hd xs) (tl xs))"
  by (cases xs) simp_all

lemma np_max_nonempty: "xs \<noteq> [] \<Longrightarrow> np_max xs = Inr (foldl fmax2 (hd xs) (tl xs))"
  by (cases xs) simp_all

text \<open>The reductions are never applied to an empty selection, so no record is lost.\<close>

lemma pixel_stats_eq:
  "pixel_stats nd bn data =
     (let vd = filter (pixel_valid nd) data
      in if vd = []
         then Inr (stats_record bn PNone PNone PNone PNone (int (length data)) 0
                     (int (length data)))
         else Inr (stats_record bn (PFloat (foldl fmin2 (hd vd) (tl vd)))
                     (PFloat (foldl fmax2 (hd vd) (tl vd)))
                     (PFloat (np_mean vd)) (PFloat (np_std vd))
                     (int (length data)) (int (length vd))
                     (int (length data) - int (length vd))))"
  by (simp add: pixel_stats_def valid_mask_map select_map count_nonzero_map Let_def
        np_min_nonempty np_max_nonempty)

lemma pixel_stats_Inr: "\<exists>r. pixel_stats nd bn data = Inr r"
  by (simp add: pixel_stats_eq Let_def)

lemma stats_record_get [simp]:
  "dict_get (stats_record bn mn mx mean sd c v i) (bn @ ''_min'') = Some mn"
  "dict_get (stats_record bn mn mx mean sd c v i) (bn @ ''_max'') = Some mx"
  "dict_get (stats_record bn mn mx mean sd c v i) (bn @ ''_mean'') = Some mean"
  "dict_get (stats_record bn mn mx mean sd c v i) (bn @ ''_std'') = Some sd"
  "dict_get (stats_record bn mn mx mean sd c v i) (bn @ ''_count'') = Some (PInt c)"
  "dict_get (stats_record bn mn mx mean sd c v i) (bn @ ''_valid'') = Some (PInt v)"
  "dict_get (stats_record bn mn mx mean sd c v i) (bn @ ''_invalid'') = Some (PInt i)"
  by (simp_all add: dict_get_def stats_record_def)

lemma count_invariant_record:
  "count_invariant bn (stats_record bn mn mx mean sd c v i) = (c = v + i)"
  by (simp add: count_invariant_def)

lemma mask_geometry_cases:
  "snd (mask_geometry src band bn idx geom) =
     (case mask_crop src geom of
        Inl e \<Rightarrow> Inr (failed_record bn)
      | Inr out_image \<Rightarrow>
          if band - 1 < length out_image
          then pixel_stats (nodata src) bn (out_image ! (band - 1))
          else Inl IndexError)"
  by (simp add: mask_geometry_def split: sum.splits)

text \<open>
  C4. When the extraction succeeds and no pixel of the band's array is valid, the record
  has null \<open>min\<close>, \<open>max\<close>, \<open>mean\<close> and \<open>std\<close>, its count is the size of the array, none is
  valid and all are invalid.
\<close>

theorem no_valid_pixel_record:
  assumes "mask_crop src geom = Inr out_image"
    and "band - 1 < length out_image"
    and "count_nonzero (valid_mask (nodata src) (out_image ! (band - 1))) = 0"
  shows "\<exists>r. snd (mask_geometry src band bn idx geom) = Inr r
           \<and> dict_get r (bn @ ''_min'') = Some PNone
           \<and> dict_get r (bn @ ''_max'') = Some PNone
           \<and> dict_get r (bn @ ''_mean'') = Some PNone
           \<and> dict_get r (bn @ ''_std'') = Some PNone
           \<and> dict_get r (bn @ ''_count'') = Some (PInt (int (length (out_image ! (band - 1)))))
           \<and> dict_get r (bn @ ''_valid'') = Some (PInt 0)
           \<and> dict_get r (bn @ ''_invalid'') = Some (PInt (int (length (out_image ! (band - 1)))))"
proof -
  from assms(3) have "filter (pixel_valid (nodata src)) (out_image ! (band - 1)) = []"
    by (simp add: valid_mask_map count_nonzero_map)
  then have "pixel_stats (nodata src) bn (out_image ! (band - 1)) =
      Inr (stats_record bn PNone PNone PNone PNone (int (length (out_image ! (band - 1)))) 0
             (int (length (out_image ! (band - 1)))))"
    by (simp add: pixel_stats_eq)
  with assms(1,2) show ?thesis
    by (simp add: mask_geometry_cases)
qed

theorem no_valid_pixel_record_witness:
  "mask_crop \<lparr>nodata = Some (Fin (- 9999)), count = 1,
              mask_crop = (\<lambda>g. Inr [[Fin (- 9999), Fin (- 9999)]])\<rparr> ()
     = Inr [[Fin (- 9999), Fin (- 9999)]]
   \<and> (1::nat) - 1 < length [[Fin (- 9999), Fin (- 9999)]]
   \<and> count_nonzero (valid_mask (Some (Fin (- 9999))) [Fin (- 9999), Fin (- 9999)]) = 0
   \<and> (\<exists>r. snd (mask_geometry
                 \<lparr>nodata = Some (Fin (- 9999)), count = 1,
                  mask_crop = (\<lambda>g. Inr [[Fin (- 9999), Fin (- 9999)]])\<rparr>
                 1 ''band_1'' 0 ()) = Inr r
           \<and> dict_get r ''band_1_min'' = Some PNone
           \<and> dict_get r ''band_1_count'' = Some (PInt 2)
           \<and> dict_get r ''band_1_valid'' = Some (PInt 0)
           \<and> dict_get r ''band_1_invalid'' = Some (PInt 2))"
  using no_valid_pixel_record [of "\<lparr>nodata = Some (Fin (- 9999)), count = 1,
              mask_crop = (\<lambda>g. Inr [[Fin (- 9999), Fin (- 9999)]])\<rparr>" "()"
              "[[Fin (- 9999), Fin (- 9999)]]" 1 "''band_1''" 0]
  by (auto simp: valid_mask_def count_nonzero_def fne_def)


lemma feq_NaN [simp]: "feq x NaN = False"
  by (cases x) simp_all







subsection \<open>Dictionaries and keys\<close>

lemma dict_set_map_of: "map_of (dict_set d k v) = (map_of d)(k \<mapsto> v)"
  by (induction d) auto

lemma dict_set_keys: "fst ` set (dict_set d k v) = insert k (fst ` set d)"
proof (induction d)
  case Nil
  then show ?case by simp
next
  case (Cons p d)
  obtain k' v' where p: "p = (k', v')" by (cases p)
  show ?case
  proof (cases "k' = k")
    case True
    then show ?thesis by (simp add: p)
  next
    case False
    then show ?thesis by (simp add: p Cons.IH insert_commute)
  qed
qed

lemma dict_set_distinct: "distinct (map fst d) \<Longrightarrow> distinct (map fst (dict_set d k v))"
proof (induction d)
  case Nil
  then show ?case by simp
next
  case (Cons p d)
  then show ?case
    using dict_set_keys [of d k v] by (cases p) auto
qed

lemma dict_update_Cons: "dict_update d ((k, v) # e) = dict_update (dict_set d k v) e"
  by (simp add: dict_update_def)

lemma dict_update_Nil [simp]: "dict_update d [] = d"
  by (simp add: dict_update_def)

lemma dict_update_map_of: "map_of (dict_update d e) = map_of d ++ map_of (rev e)"
proof (induction e arbitrary: d)
  case Nil
  then show ?case by simp
next
  case (Cons p e)
  obtain k v where p: "p = (k, v)" by (cases p)
  show ?case
    unfolding p dict_update_Cons Cons.IH
    by (rule ext) (simp add: dict_set_map_of map_add_def split: option.splits)
qed

lemma dict_update_keys: "fst ` set (dict_update d e) = fst ` set d \<union> fst ` set e"
proof (induction e arbitrary: d)
  case Nil
  then show ?case by simp
next
  case (Cons p e)
  obtain k v where p: "p = (k, v)" by (cases p)
  show ?case unfolding p dict_update_Cons Cons.IH by (simp add: dict_set_keys)
qed

lemma dict_update_distinct: "distinct (map fst d) \<Longrightarrow> distinct (map fst (dict_update d e))"
proof (induction e arbitrary: d)
  case Nil
  then show ?case by simp
next
  case (Cons p e)
  obtain k v where p: "p = (k, v)" by (cases p)
  from Cons show ?case unfolding p dict_update_Cons by (simp add: dict_set_distinct)
qed

lemma map_of_rev_distinct: "distinct (map fst e) \<Longrightarrow> map_of (rev e) = map_of e"
  by (metis distinct_rev map_of_inject_set rev_map set_rev)

lemma dict_get_update:
  "distinct (map fst e) \<Longrightarrow>
   dict_get (dict_update d e) k = (case dict_get e k of Some v \<Rightarrow> Some v | None \<Rightarrow> dict_get d k)"
  by (simp add: dict_get_def dict_update_map_of map_of_rev_distinct map_add_def
        split: option.splits)

text \<open>A key determines its band label and its metric; no key is \<open>date\<close>.\<close>

lemma key_inject:
  assumes "s \<in> set suffixes" and "s' \<in> set suffixes" and "bn @ s = l @ s'"
  shows "bn = l \<and> s = s'"
proof -
  from assms(3) have "rev s @ rev bn = rev s' @ rev l"
    by (metis rev_append)
  with assms(1,2) show ?thesis
    by (auto simp: suffixes_def)
qed

lemma key_not_date: "s \<in> set suffixes \<Longrightarrow> bn @ s \<noteq> ''date''"
proof
  assume s: "s \<in> set suffixes" and "bn @ s = ''date''"
  then have "rev s @ rev bn = rev ''date''" by (metis rev_append)
  with s show False by (auto simp: suffixes_def)
qed

lemma stats_record_keys:
  "map fst (stats_record bn mn mx mean sd c v i) = map (\<lambda>s. bn @ s) suffixes"
  by (simp add: stats_record_def suffixes_def)

lemma stats_record_distinct: "distinct (map fst (stats_record bn mn mx mean sd c v i))"
  by (simp add: stats_record_def)

subsection \<open>The loops of \<open>compute_statistics\<close>\<close>

lemma mask_geometry_ok:
  assumes "bands_ok src g" and "1 \<le> band" and "band \<le> count src"
  shows "mask_geometry src band bn idx g = (geom_log src idx g, Inr (band_record src band bn g))"
proof (cases "mask_crop src g")
  case (Inl e)
  then show ?thesis by (simp add: mask_geometry_def geom_log_def band_record_def)
next
  case (Inr img)
  with assms have "band - 1 < length img" by (simp add: bands_ok_def)
  moreover obtain r where "pixel_stats (nodata src) bn (img ! (band - 1)) = Inr r"
    using pixel_stats_Inr by blast
  ultimately show ?thesis using Inr
    by (simp add: mask_geometry_def geom_log_def band_record_def)
qed

lemma geom_loop_ok:
  assumes "\<forall>g\<in>set gs. bands_ok src g" and "1 \<le> band" and "band \<le> count src"
  shows "geom_loop src band bn idx gs lg bs =
           (lg @ concat (map (\<lambda>(k, g). geom_log src k g) (enumerate idx gs)),
            Inr (bs @ map (band_record src band bn) gs))"
  using assms(1)
proof (induction gs arbitrary: idx lg bs)
  case Nil
  then show ?case by simp
next
  case (Cons g gs)
  then show ?case using assms(2,3) by (simp add: mask_geometry_ok)
qed

lemma band_loop_ok:
  assumes "\<forall>g\<in>set shapes. bands_ok src g"
  shows "\<forall>ib\<in>set bands. 1 \<le> snd ib \<and> snd ib \<le> count src \<Longrightarrow>
         band_loop src band_names shapes bands lg sl =
           (lg @ concat (map (band_log src band_names shapes) bands),
            Inr (sl @ map (band_column src band_names shapes) bands))"
proof (induction bands arbitrary: lg sl)
  case Nil
  then show ?case by simp
next
  case (Cons ib bands)
  obtain i band where ib: "ib = (i, band)" by (cases ib)
  with Cons.prems have b: "1 \<le> band" "band \<le> count src" by auto
  from Cons.prems have rest: "\<forall>ib\<in>set bands. 1 \<le> snd ib \<and> snd ib \<le> count src" by simp
  show ?case
    unfolding ib
    by (simp add: Let_def geom_loop_ok [OF assms b] Cons.IH [OF rest] band_log_def
          band_column_def)
qed

lemma indexes_nth: "i < count src \<Longrightarrow> indexes src ! i = Suc i"
  by (simp add: indexes_def del: upt_Suc)

lemma length_indexes [simp]: "length (indexes src) = count src"
  by (simp add: indexes_def del: upt_Suc)

lemma indexes_bounds:
  "ib \<in> set (enumerate 0 (indexes src)) \<Longrightarrow> 1 \<le> snd ib \<and> snd ib \<le> count src"
proof -
  assume "ib \<in> set (enumerate 0 (indexes src))"
  then have "snd ib \<in> set (indexes src)"
    using nth_mem [of "fst ib" "indexes src"] by (simp add: in_set_enumerate_eq)
  then show ?thesis
    by (simp add: indexes_def del: upt_Suc)
qed

lemma foldl_nth_map:
  "j < length shapes \<Longrightarrow>
   foldl (\<lambda>acc bs. dict_update acc (bs ! j)) a (map (\<lambda>ib. map (f ib) shapes) bands) =
   foldl dict_update a (map (\<lambda>ib. f ib (shapes ! j)) bands)"
  by (induction bands arbitrary: a) simp_all

lemma merge_stats_columns:
  "merge_stats (length shapes) (map (band_column src band_names shapes) bands) =
     map (\<lambda>g. foldl dict_update []
            (map (\<lambda>ib. band_record src (snd ib) (band_label band_names (fst ib) (snd ib)) g)
               bands)) shapes"
  unfolding merge_stats_def band_column_def [abs_def]
  by (rule nth_equalityI) (simp_all add: foldl_nth_map)

text \<open>
  With every band present in every \<^verbatim>\<open>out_image\<close>, the function returns: one merged record
  per geometry, in the order of the geometries, each a function of its own geometry only.
\<close>

lemma compute_statistics_ok:
  assumes "\<forall>g\<in>set shapes. bands_ok src g"
  shows "compute_statistics raster_path src shapes band_names =
           (stats_log raster_path src shapes band_names,
            Inr (map (combined_record src band_names) shapes))"
proof -
  have "band_loop src band_names shapes (enumerate 0 (indexes src))
          [(INFO, ''Opening raster: '' @ raster_path)] [] =
        (stats_log raster_path src shapes band_names,
         Inr (map (band_column src band_names shapes) (enumerate 0 (indexes src))))"
  proof -
    have "\<forall>ib\<in>set (enumerate 0 (indexes src)). 1 \<le> snd ib \<and> snd ib \<le> count src"
      using indexes_bounds by blast
    from band_loop_ok [OF assms this] show ?thesis
      by (simp add: stats_log_def)
  qed
  then show ?thesis
    by (simp add: compute_statistics_def merge_stats_columns combined_record_def)
qed

subsection \<open>The merged record\<close>

lemma stats_record_get_None:
  assumes "l \<noteq> bn" and "s \<in> set suffixes"
  shows "dict_get (stats_record l mn mx mean sd c v i) (bn @ s) = None"
proof -
  have "bn @ s \<notin> set (map fst (stats_record l mn mx mean sd c v i))"
    unfolding stats_record_keys using key_inject [OF assms(2)] assms(1) by auto
  then show ?thesis
    by (simp add: dict_get_def map_of_eq_None_iff)
qed

lemma stats_record_get_Some:
  assumes "s \<in> set suffixes"
  shows "dict_get (stats_record bn mn mx mean sd c v i) (bn @ s) \<noteq> None"
proof -
  have "bn @ s \<in> set (map fst (stats_record bn mn mx mean sd c v i))"
    unfolding stats_record_keys using assms by simp
  then show ?thesis
    by (simp add: dict_get_def map_of_eq_None_iff)
qed

lemma band_record_shape:
  "\<exists>mn mx mean sd c v i. band_record src band bn g = stats_record bn mn mx mean sd c v i"
proof (cases "mask_crop src g")
  case (Inl e)
  then show ?thesis by (simp add: band_record_def failed_record_def) blast
next
  case (Inr img)
  then show ?thesis
    by (simp add: band_record_def pixel_stats_eq Let_def) blast
qed

lemma merged_from_one_band:
  assumes "\<forall>ib\<in>set bands. \<exists>mn mx mean sd c v i. R ib = stats_record (L ib) mn mx mean sd c v i"
    and "ib0 \<in> set bands"
  shows "\<exists>ib1\<in>set bands. L ib1 = L ib0 \<and>
           (\<forall>s\<in>set suffixes.
              dict_get (foldl dict_update d (map R bands)) (L ib0 @ s) = dict_get (R ib1) (L ib0 @ s))"
  using assms
proof (induction bands rule: rev_induct)
  case Nil
  then show ?case by simp
next
  case (snoc ib bands)
  obtain mn mx mean sd c v i where R: "R ib = stats_record (L ib) mn mx mean sd c v i"
    using snoc.prems(1) by auto
  show ?case
  proof (cases "L ib = L ib0")
    case True
    have "\<forall>s\<in>set suffixes.
            dict_get (foldl dict_update d (map R (bands @ [ib]))) (L ib0 @ s)
              = dict_get (R ib) (L ib0 @ s)"
    proof
      fix s assume s: "s \<in> set suffixes"
      from stats_record_get_Some [OF s, of "L ib0" mn mx mean sd c v i] True R
      obtain x where "dict_get (R ib) (L ib0 @ s) = Some x" by auto
      then show "dict_get (foldl dict_update d (map R (bands @ [ib]))) (L ib0 @ s)
              = dict_get (R ib) (L ib0 @ s)"
        using R by (simp add: dict_get_update stats_record_distinct)
    qed
    with True show ?thesis by auto
  next
    case False
    with snoc.prems(2) have in_bands: "ib0 \<in> set bands" by auto
    from snoc.prems(1) have
      "\<forall>ib\<in>set bands. \<exists>mn mx mean sd c v i. R ib = stats_record (L ib) mn mx mean sd c v i"
      by simp
    from snoc.IH [OF this in_bands] obtain ib1 where ib1: "ib1 \<in> set bands" "L ib1 = L ib0"
      "\<forall>s\<in>set suffixes. dict_get (foldl dict_update d (map R bands)) (L ib0 @ s)
          = dict_get (R ib1) (L ib0 @ s)"
      by blast
    have "\<forall>s\<in>set suffixes.
            dict_get (foldl dict_update d (map R (bands @ [ib]))) (L ib0 @ s)
              = dict_get (R ib1) (L ib0 @ s)"
    proof
      fix s assume s: "s \<in> set suffixes"
      have "dict_get (R ib) (L ib0 @ s) = None"
        unfolding R using stats_record_get_None [OF False s] by simp
      then show "dict_get (foldl dict_update d (map R (bands @ [ib]))) (L ib0 @ s)
              = dict_get (R ib1) (L ib0 @ s)"
        using R ib1(3) s by (simp add: dict_get_update stats_record_distinct)
    qed
    with ib1 show ?thesis by auto
  qed
qed

lemma enumerate_indexes_mem: "i < count src \<Longrightarrow> (i, Suc i) \<in> set (enumerate 0 (indexes src))"
  by (simp add: in_set_enumerate_eq indexes_nth)

lemma combined_from_one_band:
  assumes "i < count src"
  shows "\<exists>i'<count src. band_label names i' (Suc i') = band_label names i (Suc i) \<and>
           (\<forall>s\<in>set suffixes.
              dict_get (combined_record src names g) (band_label names i (Suc i) @ s)
                = dict_get (band_record src (Suc i') (band_label names i' (Suc i')) g)
                    (band_label names i (Suc i) @ s))"
proof -
  let ?R = "\<lambda>ib. band_record src (snd ib) (band_label names (fst ib) (snd ib)) g"
  let ?L = "\<lambda>ib. band_label names (fst ib) (snd ib)"
  have shape: "\<forall>ib\<in>set (enumerate 0 (indexes src)).
          \<exists>mn mx mean sd c v i. ?R ib = stats_record (?L ib) mn mx mean sd c v i"
    by (simp add: band_record_shape)
  from merged_from_one_band [of "enumerate 0 (indexes src)" ?R ?L "(i, Suc i)" "[]",
      OF shape enumerate_indexes_mem [OF assms]]
  obtain ib1 where ib1: "ib1 \<in> set (enumerate 0 (indexes src))" "?L ib1 = ?L (i, Suc i)"
    "\<forall>s\<in>set suffixes. dict_get (foldl dict_update [] (map ?R (enumerate 0 (indexes src))))
          (?L (i, Suc i) @ s) = dict_get (?R ib1) (?L (i, Suc i) @ s)"
    by blast
  from ib1(1) have "fst ib1 < count src" "snd ib1 = Suc (fst ib1)"
    using indexes_nth [of "fst ib1" src] by (auto simp: in_set_enumerate_eq)
  with ib1(2,3) show ?thesis
    unfolding combined_record_def by (intro exI [of _ "fst ib1"]) simp
qed






text \<open>
  C10. With fewer band names than bands the function still returns one record per
  geometry; band \<open>i\<close> (counted from 0) is labelled with its supplied name when there is
  one and with \<open>band_\<close> followed by its 1-based index otherwise, and the records carry the
  seven keys of that label.
\<close>

theorem short_band_names_fallback:
  assumes "length ns < count src"
    and "\<forall>g\<in>set shapes. bands_ok src g"
    and "i < count src"
    and "j < length shapes"
  shows "band_label (Some ns) i (indexes src ! i)
           = (if i < length ns then ns ! i else ''band_'' @ str_nat (Suc i))
         \<and> (\<exists>lg stats. compute_statistics p src shapes (Some ns) = (lg, Inr stats)
               \<and> length stats = length shapes
               \<and> (\<forall>s\<in>set suffixes.
                     dict_get (stats ! j)
                       ((if i < length ns then ns ! i else ''band_'' @ str_nat (Suc i)) @ s)
                     \<noteq> None))"
proof -
  let ?bn = "band_label (Some ns) i (Suc i)"
  have lbl: "?bn = (if i < length ns then ns ! i else ''band_'' @ str_nat (Suc i))"
    by (auto simp: band_label_def)
  from combined_from_one_band [OF assms(3), of "Some ns" "shapes ! j"]
  obtain i' where i': "band_label (Some ns) i' (Suc i') = ?bn"
    "\<forall>s\<in>set suffixes. dict_get (combined_record src (Some ns) (shapes ! j)) (?bn @ s)
        = dict_get (band_record src (Suc i') (band_label (Some ns) i' (Suc i')) (shapes ! j))
            (?bn @ s)"
    by blast
  obtain mn mx mean sd c v k where
    "band_record src (Suc i') ?bn (shapes ! j) = stats_record ?bn mn mx mean sd c v k"
    using band_record_shape [of src "Suc i'" ?bn "shapes ! j"] by blast
  with i' have "\<forall>s\<in>set suffixes.
      dict_get (combined_record src (Some ns) (shapes ! j)) (?bn @ s) \<noteq> None"
    by (simp add: stats_record_get_Some)
  then show ?thesis
    using assms(3,4) lbl
    by (simp add: compute_statistics_ok [OF assms(2)] indexes_nth)
qed

theorem short_band_names_fallback_witness:
  "length [''red''] < count demo_raster3
   \<and> list_all (bands_ok demo_raster3) [0]
   \<and> (2::nat) < count demo_raster3
   \<and> (0::nat) < length [0::nat]
   \<and> band_label (Some [''red'']) 2 (indexes demo_raster3 ! 2) = ''band_3''
   \<and> band_label (Some [''red'']) 0 (indexes demo_raster3 ! 0) = ''red''
   \<and> (\<exists>lg stats. compute_statistics ''a.tif'' demo_raster3 [0] (Some [''red'']) = (lg, Inr stats)
         \<and> length stats = 1
         \<and> dict_get (stats ! 0) ''band_3_count'' \<noteq> None
         \<and> dict_get (stats ! 0) ''red_count'' \<noteq> None)"
proof -
  have n: "length [''red''] < count demo_raster3"
    by (simp add: demo_raster3_def)
  have h: "\<forall>g\<in>set [0]. bands_ok demo_raster3 g"
    by (simp add: bands_ok_def demo_raster3_def)
  have c2: "(2::nat) < count demo_raster3" and c0: "(0::nat) < count demo_raster3"
    by (simp_all add: demo_raster3_def)
  have j: "(0::nat) < length [0::nat]"
    by simp
  have s: "''_count'' \<in> set suffixes"
    by (simp add: suffixes_def)
  have t: "str_nat 3 = ''3''"
    by (simp add: str_nat.simps digit_char_def)
  from short_band_names_fallback [OF n h c2 j, of "''a.tif''"] s
  have a: "band_label (Some [''red'']) 2 (indexes demo_raster3 ! 2) = ''band_3''"
    and "\<exists>lg stats. compute_statistics ''a.tif'' demo_raster3 [0] (Some [''red'']) = (lg, Inr stats)
         \<and> length stats = 1 \<and> dict_get (stats ! 0) ''band_3_count'' \<noteq> None"
    by (auto simp: t)
  moreover from short_band_names_fallback [OF n h c0 j, of "''a.tif''"] s
  have "band_label (Some [''red'']) 0 (indexes demo_raster3 ! 0) = ''red''"
    and "\<exists>lg stats. compute_statistics ''a.tif'' demo_raster3 [0] (Some [''red'']) = (lg, Inr stats)
         \<and> length stats = 1 \<and> dict_get (stats ! 0) ''red_count'' \<noteq> None"
    by auto
  moreover have "list_all (bands_ok demo_raster3) [0]"
    using h by (simp add: list_all_iff)
  ultimately show ?thesis
    using n c2 j by auto
qed

subsection \<open>The date key\<close>

text \<open>The examples of the specification.\<close>

lemma date_key_examples:
  "date_key_of ''scene_2023-05-14.tif'' = Inr ''2023-05-14''"
  "date_key_of ''scene_20230514_v2.tif'' = Inr ''2023-05-14''"
  "date_key_of ''scene_noDate.tif'' = Inr ''scene_noDate.tif''"
  "date_key_of ''data/in/scene_2024_02_29.tif'' = Inr ''2024-02-29''"
  by code_simp+

text \<open>
  C2. The leftmost match of the pattern is handed to \<^verbatim>\<open>strptime\<close> as it is, and eight
  digits that are no calendar date make it raise: the error leaves
  \<open>extract_date_from_filename\<close> and \<open>main\<close> uncaught, no fallback to the file name is
  taken. The second name has the shape of a Landsat product name, whose path and row
  \<open>190024\<close> start the match.
\<close>

theorem date_key_raises_on_impossible_date:
  "date_key_of ''scene_20231345.tif'' = Inl ValueError
   \<and> date_key_of ''LC08_L1TP_190024_20230514_B4.TIF'' = Inl ValueError"
  by code_simp

subsection \<open>Normalising a time series\<close>

lemma ts_entries_records:
  "list_all is_record (map snd kvs) \<Longrightarrow>
   ts_entries kvs = Inr (map (\<lambda>kv. ts_entry (fst kv) (record_fields (snd kv))) kvs)"
proof (induction kvs)
  case Nil
  then show ?case by simp
next
  case (Cons kv kvs)
  obtain k v where kv: "kv = (k, v)" by (cases kv)
  from Cons.prems obtain flds where v: "v = PDict flds"
    by (cases v) (simp_all add: kv is_record_def)
  from Cons show ?case
    by (simp add: kv v ts_entry_def record_fields_def)
qed

lemma ts_entry_fields:
  assumes "distinct (map fst flds)"
  shows "dict_get (dict_update [(''date'', PStr k)] flds) f =
           (case dict_get flds f of
              Some x \<Rightarrow> Some x
            | None \<Rightarrow> if f = ''date'' then Some (PStr k) else None)"
  using assms by (simp add: dict_get_update) (simp add: dict_get_def split: option.splits)

text \<open>
  C7, as amended. A mapping whose values are all records becomes a list with one entry
  per key, in the order of the keys; the entry keeps every field of its record, its keys
  are those of the record and \<open>date\<close>, and its \<open>date\<close> is the mapping's key when the
  record has no \<open>date\<close> field of its own. A list passes through unchanged, so normalising
  twice is normalising once. Any value that is neither a mapping nor a list becomes the
  empty list.
\<close>

theorem convert_ts_shapes:
  "(list_all is_record (map snd kvs) \<longrightarrow>
      (\<exists>es. convert_ts (PDict kvs) = Inr es \<and> length es = length kvs
         \<and> (\<forall>n<length kvs. \<exists>e. es ! n = PDict e
               \<and> (\<forall>f x. dict_get (record_fields (snd (kvs ! n))) f = Some x \<longrightarrow> dict_get e f = Some x)
               \<and> (dict_get (record_fields (snd (kvs ! n))) ''date'' = None \<longrightarrow>
                    dict_get e ''date'' = Some (PStr (fst (kvs ! n))))
               \<and> fst ` set e = insert ''date'' (fst ` set (record_fields (snd (kvs ! n)))))))
   \<and> convert_ts (PList xs) = Inr xs
   \<and> (convert_ts v = Inr ys \<longrightarrow> convert_ts (PList ys) = Inr ys)
   \<and> ((\<forall>d. v \<noteq> PDict d) \<and> (\<forall>l. v \<noteq> PList l) \<longrightarrow> convert_ts v = Inr [])"
proof (intro conjI impI)
  assume recs: "list_all is_record (map snd kvs)"
  let ?es = "map (\<lambda>kv. ts_entry (fst kv) (record_fields (snd kv))) kvs"
  have "\<forall>n<length kvs. \<exists>e. ?es ! n = PDict e
               \<and> (\<forall>f x. dict_get (record_fields (snd (kvs ! n))) f = Some x \<longrightarrow> dict_get e f = Some x)
               \<and> (dict_get (record_fields (snd (kvs ! n))) ''date'' = None \<longrightarrow>
                    dict_get e ''date'' = Some (PStr (fst (kvs ! n))))
               \<and> fst ` set e = insert ''date'' (fst ` set (record_fields (snd (kvs ! n))))"
  proof (intro allI impI)
    fix n assume n: "n < length kvs"
    with recs have "is_record (snd (kvs ! n))"
      by (simp add: list_all_length)
    then have d: "distinct (map fst (record_fields (snd (kvs ! n))))"
      by (cases "snd (kvs ! n)") (simp_all add: is_record_def record_fields_def)
    show "\<exists>e. ?es ! n = PDict e
               \<and> (\<forall>f x. dict_get (record_fields (snd (kvs ! n))) f = Some x \<longrightarrow> dict_get e f = Some x)
               \<and> (dict_get (record_fields (snd (kvs ! n))) ''date'' = None \<longrightarrow>
                    dict_get e ''date'' = Some (PStr (fst (kvs ! n))))
               \<and> fst ` set e = insert ''date'' (fst ` set (record_fields (snd (kvs ! n))))"
      using n by (simp add: ts_entry_def ts_entry_fields [OF d] dict_update_keys)
  qed
  then show "\<exists>es. convert_ts (PDict kvs) = Inr es \<and> length es = length kvs
         \<and> (\<forall>n<length kvs. \<exists>e. es ! n = PDict e
               \<and> (\<forall>f x. dict_get (record_fields (snd (kvs ! n))) f = Some x \<longrightarrow> dict_get e f = Some x)
               \<and> (dict_get (record_fields (snd (kvs ! n))) ''date'' = None \<longrightarrow>
                    dict_get e ''date'' = Some (PStr (fst (kvs ! n))))
               \<and> fst ` set e = insert ''date'' (fst ` set (record_fields (snd (kvs ! n)))))"
    by (simp add: convert_ts_def ts_entries_records [OF recs])
next
  show "convert_ts (PList xs) = Inr xs"
    by (simp add: convert_ts_def)
next
  show "convert_ts (PList ys) = Inr ys"
    by (simp add: convert_ts_def)
next
  assume "(\<forall>d. v \<noteq> PDict d) \<and> (\<forall>l. v \<noteq> PList l)"
  then show "convert_ts v = Inr []"
    by (cases v) (simp_all add: convert_ts_def)
qed

theorem convert_ts_shapes_witness:
  "list_all is_record
     (map snd [(''2023-01-01'', PDict [(''b_mean'', PFloat (Fin 1))]),
               (''2023-02-01'', PDict [(''b_mean'', PFloat (Fin 2))])])
   \<and> convert_ts (PDict [(''2023-01-01'', PDict [(''b_mean'', PFloat (Fin 1))]),
                        (''2023-02-01'', PDict [(''b_mean'', PFloat (Fin 2))])])
       = Inr [PDict [(''date'', PStr ''2023-01-01''), (''b_mean'', PFloat (Fin 1))],
              PDict [(''date'', PStr ''2023-02-01''), (''b_mean'', PFloat (Fin 2))]]
   \<and> convert_ts (PList [PDict [(''date'', PStr ''2023-01-01'')]])
       = Inr [PDict [(''date'', PStr ''2023-01-01'')]]
   \<and> convert_ts PNone = Inr []"
  using convert_ts_shapes [of "[(''2023-01-01'', PDict [(''b_mean'', PFloat (Fin 1))]),
               (''2023-02-01'', PDict [(''b_mean'', PFloat (Fin 2))])]"
      "[PDict [(''date'', PStr ''2023-01-01'')]]" PNone "[]"]
  by (simp add: convert_ts_def dict_update_def is_record_def)

text \<open>
  C7, the claim as stated, fails twice: a date-keyed mapping whose value is a number raises
  \<^verbatim>\<open>TypeError\<close> instead of giving a sequence, and a record with a \<open>date\<close> field of its
  own loses the key it was stored under.
\<close>

theorem convert_ts_counterexample:
  "convert_ts (PDict [(''2023-01-01'', PFloat (Fin 1))]) = Inl TypeError
   \<and> convert_ts (PDict [(''2023-01-01'', PDict [(''date'', PStr ''1999-12-31''), (''b_mean'', PFloat (Fin 1))])])
       = Inr [PDict [(''date'', PStr ''1999-12-31''), (''b_mean'', PFloat (Fin 1))]]"
  by (simp add: convert_ts_def dict_update_def)

subsection \<open>The statistics of the valid pixels\<close>









subsection \<open>The loop over the rasters\<close>

lemma append_entries_ok:
  "n + length stats \<le> length ts \<Longrightarrow>
   \<exists>ts'. append_entries dk (enumerate n stats) ts = Inr ts' \<and> length ts' = length ts
     \<and> (\<forall>i<length ts. ts' ! i =
           (if n \<le> i \<and> i < n + length stats
            then ts ! i @ [PDict (dict_update [(''date'', PStr dk)] (stats ! (i - n)))]
            else ts ! i))"
proof (induction stats arbitrary: n ts)
  case Nil
  then show ?case by simp
next
  case (Cons s stats)
  let ?ts1 = "ts[n := ts ! n @ [PDict (dict_update [(''date'', PStr dk)] s)]]"
  from Cons.prems have n: "n < length ts" and le: "Suc n + length stats \<le> length ?ts1"
    by simp_all
  from Cons.IH [OF le] obtain ts' where ts':
    "append_entries dk (enumerate (Suc n) stats) ?ts1 = Inr ts'" "length ts' = length ts"
    "\<forall>i<length ts. ts' ! i =
           (if Suc n \<le> i \<and> i < Suc n + length stats
            then ?ts1 ! i @ [PDict (dict_update [(''date'', PStr dk)] (stats ! (i - Suc n)))]
            else ?ts1 ! i)"
    by auto
  have "\<forall>i<length ts. ts' ! i =
           (if n \<le> i \<and> i < n + length (s # stats)
            then ts ! i @ [PDict (dict_update [(''date'', PStr dk)] ((s # stats) ! (i - n)))]
            else ts ! i)"
  proof (intro allI impI)
    fix i assume i: "i < length ts"
    show "ts' ! i =
           (if n \<le> i \<and> i < n + length (s # stats)
            then ts ! i @ [PDict (dict_update [(''date'', PStr dk)] ((s # stats) ! (i - n)))]
            else ts ! i)"
    proof (cases "i = n")
      case True
      with ts'(3) i show ?thesis by simp
    next
      case False
      with ts'(3) i show ?thesis by (auto simp: nth_Cons' Suc_diff_Suc)
    qed
  qed
  with ts'(1,2) n show ?case by simp
qed

lemma append_entries_all:
  assumes "length stats = length ts"
  shows "append_entries dk (enumerate 0 stats) ts =
           Inr (map (\<lambda>i. ts ! i @ [PDict (dict_update [(''date'', PStr dk)] (stats ! i))])
                  [0..<length ts])"
proof -
  from append_entries_ok [of 0 stats ts dk] assms obtain ts' where ts':
    "append_entries dk (enumerate 0 stats) ts = Inr ts'" "length ts' = length ts"
    "\<forall>i<length ts. ts' ! i = ts ! i @ [PDict (dict_update [(''date'', PStr dk)] (stats ! i))]"
    by auto
  have "ts' = map (\<lambda>i. ts ! i @ [PDict (dict_update [(''date'', PStr dk)] (stats ! i))])
                  [0..<length ts]"
    using ts'(2,3) by (intro nth_equalityI) simp_all
  with ts'(1) show ?thesis by simp
qed

lemma tiff_loop_ok:
  assumes "length ts = length gdf"
  shows "list_all (raster_ok opn gdf) tiffs \<Longrightarrow>
         tiff_loop opn gdf names tiffs ts =
           Inr (map (\<lambda>i. ts ! i @ map (raster_entry opn names (gdf ! i)) tiffs)
                  [0..<length gdf])"
  using assms
proof (induction tiffs arbitrary: ts)
  case Nil
  then show ?case using map_nth [of ts] by simp
next
  case (Cons t tiffs)
  from Cons.prems(1) obtain dk src where ok: "date_key_of t = Inr dk" "opn t = Inr src"
    "list_all (bands_ok src) gdf"
    by (auto simp: raster_ok_def split: sum.splits)
  from ok(3) have b: "\<forall>g\<in>set gdf. bands_ok src g"
    by (simp add: list_all_iff)
  let ?stats = "map (combined_record src names) gdf"
  let ?ts1 = "map (\<lambda>i. ts ! i @ [PDict (dict_update [(''date'', PStr dk)] (?stats ! i))])
                [0..<length ts]"
  have app: "append_entries dk (enumerate 0 ?stats) ts = Inr ?ts1"
    using Cons.prems(2) by (intro append_entries_all) simp
  have len: "length ?ts1 = length gdf"
    using Cons.prems(2) by simp
  from Cons.prems(1) have rest: "list_all (raster_ok opn gdf) tiffs"
    by simp
  have "tiff_loop opn gdf names (t # tiffs) ts = tiff_loop opn gdf names tiffs ?ts1"
    using ok(1,2) app by (simp add: compute_statistics_ok [OF b])
  also have "\<dots> = Inr (map (\<lambda>i. ?ts1 ! i @ map (raster_entry opn names (gdf ! i)) tiffs)
                       [0..<length gdf])"
    by (rule Cons.IH [OF rest len])
  also have "\<dots> = Inr (map (\<lambda>i. ts ! i @ map (raster_entry opn names (gdf ! i)) (t # tiffs))
                       [0..<length gdf])"
    using Cons.prems(2) ok(1,2) by (simp add: raster_entry_def)
  finally show ?case .
qed


lemma foldl_dict_update_keys:
  "fst ` set (foldl dict_update d rs) = fst ` set d \<union> (\<Union>r\<in>set rs. fst ` set r)"
  by (induction rs arbitrary: d) (auto simp: dict_update_keys)

lemma foldl_dict_update_distinct:
  "distinct (map fst d) \<Longrightarrow> distinct (map fst (foldl dict_update d rs))"
  by (induction rs arbitrary: d) (simp_all add: dict_update_distinct)

lemma combined_record_distinct: "distinct (map fst (combined_record src names g))"
  unfolding combined_record_def by (rule foldl_dict_update_distinct) simp

lemma combined_record_no_date: "dict_get (combined_record src names g) ''date'' = None"
proof -
  have "''date'' \<notin> fst ` set (combined_record src names g)"
  proof
    assume "''date'' \<in> fst ` set (combined_record src names g)"
    then obtain ib where
      "''date'' \<in> fst ` set (band_record src (snd ib) (band_label names (fst ib) (snd ib)) g)"
      unfolding combined_record_def foldl_dict_update_keys by auto
    moreover obtain mn mx mean sd c v i where
      "band_record src (snd ib) (band_label names (fst ib) (snd ib)) g
         = stats_record (band_label names (fst ib) (snd ib)) mn mx mean sd c v i"
      using band_record_shape [of src "snd ib" "band_label names (fst ib) (snd ib)" g] by blast
    ultimately have "''date''
        \<in> set (map fst (stats_record (band_label names (fst ib) (snd ib)) mn mx mean sd c v i))"
      by simp
    then have "''date'' \<in> set (map (\<lambda>s. band_label names (fst ib) (snd ib) @ s) suffixes)"
      unfolding stats_record_keys .
    then show False
      using key_not_date by fastforce
  qed
  then show ?thesis
    by (simp add: dict_get_def map_of_eq_None_iff)
qed

text \<open>
  When every raster opens, has a date key and returns all its bands, the loop over
  \<open>N\<close> rasters ends with each feature's series being its former series followed by one
  entry per raster, in the order of the rasters: the series has grown by exactly \<open>N\<close>
  (a series that starts empty has length \<open>N\<close>), nothing before is changed or dropped,
  and the entry of a raster is its date key under \<open>date\<close> together with the fields of
  the feature's merged record for that raster. With no time series column at the start,
  every series is exactly the list of these entries.
\<close>

theorem time_series_grows_by_append:
  assumes "list_all (raster_ok opn gdf) tiffs"
    and "length ts = length gdf"
    and "i < length gdf"
  shows "\<exists>ts'. tiff_loop opn gdf names tiffs ts = Inr ts'
           \<and> length ts' = length gdf
           \<and> ts' ! i = ts ! i @ map (raster_entry opn names (gdf ! i)) tiffs
           \<and> length (ts' ! i) = length (ts ! i) + length tiffs
           \<and> (ts ! i = [] \<longrightarrow> length (ts' ! i) = length tiffs)
           \<and> (\<forall>n<length tiffs. \<exists>dk src e.
                  date_key_of (tiffs ! n) = Inr dk \<and> opn (tiffs ! n) = Inr src
                  \<and> ts' ! i ! (length (ts ! i) + n) = PDict e
                  \<and> e = dict_update [(''date'', PStr dk)] (combined_record src names (gdf ! i))
                  \<and> dict_get e ''date'' = Some (PStr dk)
                  \<and> (\<forall>k. k \<noteq> ''date'' \<longrightarrow>
                        dict_get e k = dict_get (combined_record src names (gdf ! i)) k))
           \<and> multi_raster opn gdf None names tiffs
               = Inr (map (\<lambda>g. map (raster_entry opn names g) tiffs) gdf)"
proof -
  let ?ts' = "map (\<lambda>i. ts ! i @ map (raster_entry opn names (gdf ! i)) tiffs) [0..<length gdf]"
  have loop: "tiff_loop opn gdf names tiffs ts = Inr ?ts'"
    by (rule tiff_loop_ok [OF assms(2,1)])
  have entries: "\<forall>n<length tiffs. \<exists>dk src e.
                  date_key_of (tiffs ! n) = Inr dk \<and> opn (tiffs ! n) = Inr src
                  \<and> ?ts' ! i ! (length (ts ! i) + n) = PDict e
                  \<and> e = dict_update [(''date'', PStr dk)] (combined_record src names (gdf ! i))
                  \<and> dict_get e ''date'' = Some (PStr dk)
                  \<and> (\<forall>k. k \<noteq> ''date'' \<longrightarrow>
                        dict_get e k = dict_get (combined_record src names (gdf ! i)) k)"
  proof (intro allI impI)
    fix n assume n: "n < length tiffs"
    with assms(1) have "raster_ok opn gdf (tiffs ! n)"
      by (simp add: list_all_length)
    then obtain dk src where ok: "date_key_of (tiffs ! n) = Inr dk" "opn (tiffs ! n) = Inr src"
      by (auto simp: raster_ok_def split: sum.splits)
    let ?c = "combined_record src names (gdf ! i)"
    let ?e = "dict_update [(''date'', PStr dk)] ?c"
    have "?ts' ! i ! (length (ts ! i) + n) = PDict ?e"
      using assms(3) n ok by (simp add: raster_entry_def)
    moreover have "dict_get ?e ''date'' = Some (PStr dk)"
      by (simp add: ts_entry_fields [OF combined_record_distinct] combined_record_no_date)
    moreover have "\<forall>k. k \<noteq> ''date'' \<longrightarrow> dict_get ?e k = dict_get ?c k"
      by (simp add: ts_entry_fields [OF combined_record_distinct] split: option.splits)
    ultimately show "\<exists>dk src e.
                  date_key_of (tiffs ! n) = Inr dk \<and> opn (tiffs ! n) = Inr src
                  \<and> ?ts' ! i ! (length (ts ! i) + n) = PDict e
                  \<and> e = dict_update [(''date'', PStr dk)] (combined_record src names (gdf ! i))
                  \<and> dict_get e ''date'' = Some (PStr dk)
                  \<and> (\<forall>k. k \<noteq> ''date'' \<longrightarrow>
                        dict_get e k = dict_get (combined_record src names (gdf ! i)) k)"
      using ok by blast
  qed
  have fresh: "multi_raster opn gdf None names tiffs
               = Inr (map (\<lambda>g. map (raster_entry opn names g) tiffs) gdf)"
  proof -
    have "tiff_loop opn gdf names tiffs (replicate (length gdf) [])
            = Inr (map (\<lambda>i. replicate (length gdf) [] ! i
                               @ map (raster_entry opn names (gdf ! i)) tiffs) [0..<length gdf])"
      by (rule tiff_loop_ok [OF _ assms(1)]) simp
    also have "map (\<lambda>i. replicate (length gdf) [] ! i
                               @ map (raster_entry opn names (gdf ! i)) tiffs) [0..<length gdf]
               = map (\<lambda>g. map (raster_entry opn names g) tiffs) gdf"
      by (intro nth_equalityI) simp_all
    finally show ?thesis
      by (simp add: multi_raster_def init_timeseries_def)
  qed
  have "length ?ts' = length gdf
           \<and> ?ts' ! i = ts ! i @ map (raster_entry opn names (gdf ! i)) tiffs
           \<and> length (?ts' ! i) = length (ts ! i) + length tiffs
           \<and> (ts ! i = [] \<longrightarrow> length (?ts' ! i) = length tiffs)"
    using assms(3) by simp
  with loop entries fresh show ?thesis
    by blast
qed


theorem time_series_grows_by_append_witness:
  "list_all (raster_ok (\<lambda>p. Inr demo_raster) [0, 2]) [''a_2023-01-01.tif'', ''a_2023-02-01.tif'']
   \<and> length [[], []] = length [0::nat, 2]
   \<and> (0::nat) < length [0::nat, 2]
   \<and> (\<exists>ts' e1 e2.
         tiff_loop (\<lambda>p. Inr demo_raster) [0, 2] None
           [''a_2023-01-01.tif'', ''a_2023-02-01.tif''] [[], []] = Inr ts'
         \<and> length (ts' ! 0) = 2
         \<and> ts' ! 0 = [PDict e1, PDict e2]
         \<and> dict_get e1 ''date'' = Some (PStr ''2023-01-01'')
         \<and> dict_get e2 ''date'' = Some (PStr ''2023-02-01''))"
proof -
  let ?opn = "\<lambda>p::string. Inr demo_raster :: error + nat raster"
  let ?tiffs = "[''a_2023-01-01.tif'', ''a_2023-02-01.tif'']"
  have dk1: "date_key_of ''a_2023-01-01.tif'' = Inr ''2023-01-01''"
    by code_simp
  have dk2: "date_key_of ''a_2023-02-01.tif'' = Inr ''2023-02-01''"
    by code_simp
  have ok: "list_all (raster_ok ?opn [0, 2]) ?tiffs"
    by (simp add: raster_ok_def dk1 dk2 bands_ok_def demo_raster_def)
  have len: "length [[], []] = length [0::nat, 2]"
    by simp
  have i: "(0::nat) < length [0::nat, 2]"
    by simp
  from time_series_grows_by_append [OF ok len i, of None]
  obtain ts' where ts':
    "tiff_loop ?opn [0, 2] None ?tiffs [[], []] = Inr ts'"
    "ts' ! 0 = [[], []] ! 0 @ map (raster_entry ?opn None ([0, 2] ! 0)) ?tiffs"
    "length (ts' ! 0) = length ([[], []] ! 0 :: pyval list) + length ?tiffs"
    "\<forall>n<length ?tiffs. \<exists>dk src e.
        date_key_of (?tiffs ! n) = Inr dk \<and> ?opn (?tiffs ! n) = Inr src
        \<and> ts' ! 0 ! (length ([[], []] ! 0 :: pyval list) + n) = PDict e
        \<and> e = dict_update [(''date'', PStr dk)] (combined_record src None ([0, 2] ! 0))
        \<and> dict_get e ''date'' = Some (PStr dk)
        \<and> (\<forall>k. k \<noteq> ''date'' \<longrightarrow>
              dict_get e k = dict_get (combined_record src None ([0, 2] ! 0)) k)"
    by blast
  from ts'(4) [rule_format, of 0] obtain e1 where e1:
    "ts' ! 0 ! 0 = PDict e1" "dict_get e1 ''date'' = Some (PStr ''2023-01-01'')"
    by (auto simp: dk1)
  from ts'(4) [rule_format, of 1] obtain e2 where e2:
    "ts' ! 0 ! 1 = PDict e2" "dict_get e2 ''date'' = Some (PStr ''2023-02-01'')"
    by (auto simp: dk2)
  from ts'(3) have l: "length (ts' ! 0) = 2"
    by simp
  have "ts' ! 0 = [PDict e1, PDict e2]"
    using l e1(1) e2(1) by (intro nth_equalityI) (auto simp: less_Suc_eq numeral_2_eq_2)
  with ts'(1) l e1(2) e2(2) have
    "\<exists>ts' e1 e2.
         tiff_loop ?opn [0, 2] None ?tiffs [[], []] = Inr ts'
         \<and> length (ts' ! 0) = 2
         \<and> ts' ! 0 = [PDict e1, PDict e2]
         \<and> dict_get e1 ''date'' = Some (PStr ''2023-01-01'')
         \<and> dict_get e2 ''date'' = Some (PStr ''2023-02-01'')"
    by blast
  with ok len i show ?thesis
    by (intro conjI)
qed

text \<open>
  C8. The run over two rasters of which the second has a name whose leftmost match is no
  calendar date: the first raster is processed, then the date extraction of the second
  raises, and the loop and \<open>multi_raster\<close> end in that error. No feature gets a time
  series, let alone one of length 2.
\<close>

theorem time_series_lost_on_impossible_date:
  "multi_raster (\<lambda>p. Inr demo_raster) [0, 2] None None
     [''a_2023-01-01.tif'', ''LC08_L1TP_190024_20230514_B4.TIF''] = Inl ValueError
   \<and> tiff_loop (\<lambda>p. Inr demo_raster) [0, 2] None
       [''a_2023-01-01.tif'', ''LC08_L1TP_190024_20230514_B4.TIF''] [[], []] = Inl ValueError"
proof -
  have dk1: "date_key_of ''a_2023-01-01.tif'' = Inr ''2023-01-01''"
    by code_simp
  have dk2: "date_key_of ''LC08_L1TP_190024_20230514_B4.TIF'' = Inl ValueError"
    by code_simp
  have b: "\<forall>g\<in>set [0, 2]. bands_ok demo_raster g"
    by (simp add: bands_ok_def demo_raster_def)
  have "tiff_loop (\<lambda>p. Inr demo_raster) [0, 2] None
       [''a_2023-01-01.tif'', ''LC08_L1TP_190024_20230514_B4.TIF''] [[], []] = Inl ValueError"
    by (simp add: dk1 dk2 compute_statistics_ok [OF b] append_entries_all)
  then show ?thesis
    by (simp add: multi_raster_def init_timeseries_def numeral_2_eq_2)
qed

subsection \<open>Pixels of the window outside the geometry\<close>

lemma filter_filled:
  assumes "feq s s"
  shows "filter (pixel_valid (Some s)) (map (\<lambda>(v, inside). if inside then v else fill_value (Some s)) px)
           = filter (pixel_valid (Some s)) (inside_values px)"
  using assms
  by (induction px) (auto simp: inside_values_def pixel_valid_def fill_value_def fne_def)

lemma length_inside_outside: "length px = length (inside_values px) + outside_count px"
  by (induction px) (simp_all add: inside_values_def outside_count_def)

text \<open>
  C1, as amended. The extracted array is the whole cropped window: the pixels outside
  the geometry are not removed but overwritten with the nodata value. When the raster
  declares a nodata value (one that equals itself, so not \<^verbatim>\<open>nan\<close>), these pixels are
  classified invalid: \<open>min\<close>, \<open>max\<close>, \<open>mean\<close>, \<open>std\<close> and \<open>valid\<close> are those of the
  pixels inside the geometry, while \<open>count\<close> is the size of the window and \<open>invalid\<close>
  includes every outside pixel.
\<close>

theorem outside_pixels_counted_invalid:
  assumes "win g = Inr w"
    and "1 \<le> band" and "band \<le> length w"
    and "feq s s"
  shows "\<exists>r r_in. snd (mask_geometry (dataset (Some s) n win) band bn idx g) = Inr r
           \<and> pixel_stats (Some s) bn (inside_values (w ! (band - 1))) = Inr r_in
           \<and> dict_get r (bn @ ''_min'') = dict_get r_in (bn @ ''_min'')
           \<and> dict_get r (bn @ ''_max'') = dict_get r_in (bn @ ''_max'')
           \<and> dict_get r (bn @ ''_mean'') = dict_get r_in (bn @ ''_mean'')
           \<and> dict_get r (bn @ ''_std'') = dict_get r_in (bn @ ''_std'')
           \<and> dict_get r (bn @ ''_valid'') = dict_get r_in (bn @ ''_valid'')
           \<and> dict_get r (bn @ ''_count'') = Some (PInt (int (length (w ! (band - 1)))))
           \<and> dict_get r_in (bn @ ''_count'')
               = Some (PInt (int (length (w ! (band - 1))) - int (outside_count (w ! (band - 1)))))
           \<and> (\<exists>k. dict_get r_in (bn @ ''_invalid'') = Some (PInt k)
                 \<and> dict_get r (bn @ ''_invalid'')
                     = Some (PInt (k + int (outside_count (w ! (band - 1))))))"
proof -
  let ?px = "w ! (band - 1)"
  let ?data = "map (\<lambda>(v, inside). if inside then v else fill_value (Some s)) ?px"
  from assms(2,3) have b: "band - 1 < length w" by simp
  have m: "snd (mask_geometry (dataset (Some s) n win) band bn idx g)
             = pixel_stats (Some s) bn ?data"
    using assms(1) b by (simp add: mask_geometry_cases dataset_def rasterio_mask_def)
  have len: "int (length ?px) = int (length (inside_values ?px)) + int (outside_count ?px)"
    using length_inside_outside [of ?px] by simp
  show ?thesis
    unfolding m using len
    by (simp add: pixel_stats_eq Let_def filter_filled [OF assms(4)])
qed

text \<open>
  C1, the claim as stated, fails: of two window pixels with one inside the geometry, both
  are counted. With a nodata value the outside pixel is counted invalid; without one it
  is filled with 0, counted valid and becomes the minimum.
\<close>

theorem outside_pixels_counterexample:
  "(\<exists>r. snd (mask_geometry
               (dataset (Some (Fin (- 9999))) 1 (\<lambda>g. Inr [[(Fin 5, True), (Fin 7, False)]]))
               1 ''band_1'' 0 ()) = Inr r
        \<and> dict_get r ''band_1_count'' = Some (PInt 2)
        \<and> dict_get r ''band_1_valid'' = Some (PInt 1)
        \<and> dict_get r ''band_1_invalid'' = Some (PInt 1))
   \<and> (\<exists>r. snd (mask_geometry
               (dataset None 1 (\<lambda>g. Inr [[(Fin 5, True), (Fin 7, False)]]))
               1 ''band_1'' 0 ()) = Inr r
        \<and> dict_get r ''band_1_count'' = Some (PInt 2)
        \<and> dict_get r ''band_1_valid'' = Some (PInt 2)
        \<and> dict_get r ''band_1_min'' = Some (PFloat (Fin 0)))
   \<and> length (inside_values [(Fin 5, True), (Fin 7, False)]) = 1"
  by (simp add: mask_geometry_cases dataset_def rasterio_mask_def fill_value_def pixel_stats_eq
        pixel_valid_def fne_def inside_values_def fmin2_def Let_def dict_get_def
        stats_record_def)


theorem outside_pixels_counted_invalid_witness:
  "(\<lambda>g::unit. Inr [[(Fin 5, True), (Fin 7, False), (Fin (- 9999), True)]] :: string + window) ()
     = Inr [[(Fin 5, True), (Fin 7, False), (Fin (- 9999), True)]]
   \<and> (1::nat) \<le> 1
   \<and> 1 \<le> length [[(Fin 5, True), (Fin 7, False), (Fin (- 9999), True)]]
   \<and> feq (Fin (- 9999)) (Fin (- 9999))
   \<and> (\<exists>r. snd (mask_geometry
                 (dataset (Some (Fin (- 9999))) 1
                    (\<lambda>g. Inr [[(Fin 5, True), (Fin 7, False), (Fin (- 9999), True)]]))
                 1 ''band_1'' 0 ()) = Inr r
          \<and> dict_get r ''band_1_min'' = Some (PFloat (Fin 5))
          \<and> dict_get r ''band_1_max'' = Some (PFloat (Fin 5))
          \<and> dict_get r ''band_1_valid'' = Some (PInt 1)
          \<and> dict_get r ''band_1_count'' = Some (PInt 3)
          \<and> dict_get r ''band_1_invalid'' = Some (PInt 2))"
proof -
  let ?w = "[[(Fin 5, True), (Fin 7, False), (Fin (- 9999), True)]]"
  let ?win = "\<lambda>g::unit. Inr ?w :: string + window"
  have a: "?win () = Inr ?w" by simp
  have b: "(1::nat) \<le> 1" by simp
  have c: "1 \<le> length ?w" by simp
  have d: "feq (Fin (- 9999)) (Fin (- 9999))" by simp
  from outside_pixels_counted_invalid [of ?win "()" ?w 1 "Fin (- 9999)" 1 "''band_1''" 0,
      OF a b c d]
  have "\<exists>r. snd (mask_geometry (dataset (Some (Fin (- 9999))) 1 ?win) 1 ''band_1'' 0 ()) = Inr r
          \<and> dict_get r ''band_1_min'' = Some (PFloat (Fin 5))
          \<and> dict_get r ''band_1_max'' = Some (PFloat (Fin 5))
          \<and> dict_get r ''band_1_valid'' = Some (PInt 1)
          \<and> dict_get r ''band_1_count'' = Some (PInt 3)
          \<and> dict_get r ''band_1_invalid'' = Some (PInt 2)"
    by (auto simp: inside_values_def outside_count_def pixel_stats_eq pixel_valid_def fne_def
          Let_def dict_get_def stats_record_def)
  with a b c d show ?thesis
    by (intro conjI)
qed

subsection \<open>The count invariant\<close>

lemma band_record_count_invariant: "count_invariant bn (band_record src band bn g)"
proof (cases "mask_crop src g")
  case (Inl e)
  then show ?thesis
    by (simp add: band_record_def failed_record_def count_invariant_record)
next
  case (Inr img)
  then show ?thesis
    by (simp add: band_record_def pixel_stats_eq Let_def count_invariant_record)
qed

lemma combined_count_invariant:
  assumes "i < count src"
  shows "count_invariant (band_label names i (Suc i)) (combined_record src names g)"
proof -
  let ?bn = "band_label names i (Suc i)"
  from combined_from_one_band [OF assms, of names g]
  obtain i' where i': "band_label names i' (Suc i') = ?bn"
    "\<forall>s\<in>set suffixes. dict_get (combined_record src names g) (?bn @ s)
        = dict_get (band_record src (Suc i') (band_label names i' (Suc i')) g) (?bn @ s)"
    by blast
  have "''_count'' \<in> set suffixes" "''_valid'' \<in> set suffixes" "''_invalid'' \<in> set suffixes"
    by (simp_all add: suffixes_def)
  with i'(2) have "count_invariant ?bn (combined_record src names g)
      = count_invariant ?bn (band_record src (Suc i') (band_label names i' (Suc i')) g)"
    by (simp add: count_invariant_def)
  then show ?thesis
    using band_record_count_invariant [of ?bn src "Suc i'" g] i'(1) by simp
qed

text \<open>
  C3. Whatever record one pass of the geometry loop appends for a band (the statistics,
  the record without valid pixels, or the substitute after a failed extraction), its
  count is exactly its valid plus its invalid; and so it is for every band in every
  merged record that \<open>compute_statistics\<close> returns.
\<close>

theorem count_is_valid_plus_invalid:
  "(snd (mask_geometry src band bn idx geom) = Inr r \<longrightarrow> count_invariant bn r)
   \<and> ((\<forall>g\<in>set shapes. bands_ok src g) \<and> j < length shapes \<and> i < count src \<longrightarrow>
        (\<exists>lg stats. compute_statistics p src shapes names = (lg, Inr stats)
           \<and> count_invariant (band_label names i (Suc i)) (stats ! j)))"
proof (intro conjI impI)
  assume "snd (mask_geometry src band bn idx geom) = Inr r"
  then show "count_invariant bn r"
    by (auto simp: mask_geometry_cases pixel_stats_eq Let_def failed_record_def
          count_invariant_record split: sum.splits if_splits)
next
  assume a: "(\<forall>g\<in>set shapes. bands_ok src g) \<and> j < length shapes \<and> i < count src"
  then have ok: "\<forall>g\<in>set shapes. bands_ok src g" by simp
  from a show "\<exists>lg stats. compute_statistics p src shapes names = (lg, Inr stats)
           \<and> count_invariant (band_label names i (Suc i)) (stats ! j)"
    by (simp add: compute_statistics_ok [OF ok] combined_count_invariant)
qed

theorem count_is_valid_plus_invalid_witness:
  "(\<exists>r. snd (mask_geometry demo_raster 1 ''band_1'' 0 0) = Inr r
        \<and> count_invariant ''band_1'' r)
   \<and> list_all (bands_ok demo_raster) [0, 1, 2]
   \<and> (2::nat) < length [0::nat, 1, 2]
   \<and> (0::nat) < count demo_raster
   \<and> (\<exists>lg stats. compute_statistics ''a.tif'' demo_raster [0, 1, 2] None = (lg, Inr stats)
         \<and> count_invariant ''band_1'' (stats ! 2))"
proof -
  have l: "band_label None 0 (Suc 0) = ''band_1''"
    by (simp add: band_label_def str_nat.simps digit_char_def)
  have h: "\<forall>g\<in>set [0, 1, 2]. bands_ok demo_raster g"
    by (simp add: bands_ok_def demo_raster_def)
  have j: "(2::nat) < length [0::nat, 1, 2]" and c: "(0::nat) < count demo_raster"
    by (simp_all add: demo_raster_def)
  obtain r where r: "snd (mask_geometry demo_raster 1 ''band_1'' 0 0) = Inr r"
    using pixel_stats_Inr [of "Some (Fin (- 9999))" "''band_1''"
        "[Fin 1, Fin 2, Fin (- 9999), Fin 4]"]
    by (auto simp: mask_geometry_cases demo_raster_def)
  note inst = count_is_valid_plus_invalid [of demo_raster 1 "''band_1''" 0 0 r "[0, 1, 2]" 2 0
      "''a.tif''" None]
  from inst r have "count_invariant ''band_1'' r"
    by blast
  with r have first: "\<exists>r. snd (mask_geometry demo_raster 1 ''band_1'' 0 0) = Inr r
        \<and> count_invariant ''band_1'' r"
    by blast
  from inst h j c have "\<exists>lg stats. compute_statistics ''a.tif'' demo_raster [0, 1, 2] None
         = (lg, Inr stats) \<and> count_invariant ''band_1'' (stats ! 2)"
    unfolding l by blast
  moreover have "list_all (bands_ok demo_raster) [0, 1, 2]"
    using h by (simp add: list_all_iff)
  ultimately show ?thesis
    using first j c by (intro conjI)
qed

end
